theory Spec2Isabelle
  imports Main "HOL-Library.Sublist"
begin

section \<open>JavaScript strings\<close>

text \<open>
  The program is \<^verbatim>\<open>src/myjs.js\<close>. A JavaScript string is a sequence of UTF-16 code
  units; the model is \<^typ>\<open>string\<close>, a \<^typ>\<open>char\<close> standing for the code unit of the same
  number, so it covers the strings whose code units are below 256 (ASCII and the Latin-1
  supplement). On those, \<^verbatim>\<open>toLowerCase\<close> maps \<^verbatim>\<open>A-Z\<close> and the capital letters
  \<^verbatim>\<open>U+00C0..U+00DE\<close> (but not the multiplication sign \<^verbatim>\<open>U+00D7\<close>) to the code unit 32
  above, and leaves every other code unit alone.
\<close>

definition lowerUnit :: "char \<Rightarrow> char" where
  "lowerUnit c =
     (let n = (of_char c :: nat)
      in if (65 \<le> n \<and> n \<le> 90) \<or> (192 \<le> n \<and> n \<le> 222 \<and> n \<noteq> 215)
         then char_of (n + 32) else c)"

definition toLowerCase :: "string \<Rightarrow> string" where
  "toLowerCase s = map lowerUnit s"

text \<open>
  White space as \<^verbatim>\<open>trim()\<close> and the regular expression class \<^verbatim>\<open>\s\<close> see it (ECMAScript
  WhiteSpace and LineTerminator): below 256 these are TAB, LF, VT, FF, CR, SP and NBSP.
\<close>

definition isWhiteSpace :: "char \<Rightarrow> bool" where
  "isWhiteSpace c =
     (c = CHR 0x09 \<or> c = CHR 0x0A \<or> c = CHR 0x0B \<or> c = CHR 0x0C \<or> c = CHR 0x0D \<or>
      c = CHR 0x20 \<or> c = CHR 0xA0)"

definition trim :: "string \<Rightarrow> string" where
  "trim s = rev (dropWhile isWhiteSpace (rev (dropWhile isWhiteSpace s)))"

text \<open>\<^verbatim>\<open>s.startsWith(p)\<close>.\<close>

definition startsWith :: "string \<Rightarrow> string \<Rightarrow> bool" where
  "startsWith s p = prefix p s"

text \<open>
  \<^verbatim>\<open>h.includes(q)\<close>: \<open>q\<close> occurs in \<open>h\<close> at some position (the source's name is a
  keyword of Isabelle, hence the suffix).
\<close>

fun includes_js :: "string \<Rightarrow> string \<Rightarrow> bool" where
  "includes_js [] q = (q = [])"
| "includes_js (c # cs) q = (prefix q (c # cs) \<or> includes_js cs q)"

text \<open>\<^verbatim>\<open>xs.join(sep)\<close> on an array of strings.\<close>

fun join :: "string \<Rightarrow> string list \<Rightarrow> string" where
  "join sep [] = []"
| "join sep [x] = x"
| "join sep (x # y # ys) = x @ sep @ join sep (y # ys)"

text \<open>\<^verbatim>\<open>a || b\<close> on strings: the empty string is the only falsy string.\<close>

definition orElse :: "string \<Rightarrow> string \<Rightarrow> string" where
  "orElse a b = (if a \<noteq> [] then a else b)"

section \<open>Raw records\<close>

text \<open>
  \<^verbatim>\<open>parsed\<close> is the object that \<^verbatim>\<open>JSON.parse\<close> returns: title to raw record, a raw record
  an object from field name to a string or \<^verbatim>\<open>null\<close>. An object is modelled by the list of
  its entries in the order of \<^verbatim>\<open>Object.keys\<close> / \<^verbatim>\<open>Object.entries\<close>; \<^verbatim>\<open>rec[key]\<close> is
  \<^term>\<open>map_of\<close>, \<^const>\<open>None\<close> standing for \<^verbatim>\<open>undefined\<close> (the names the program looks up
  are own keys of the record or field names that \<^verbatim>\<open>Object.prototype\<close> does not have).
\<close>

datatype jsval = JNull | JString string

type_synonym rawRecord = "(string \<times> jsval) list"

text \<open>\<^verbatim>\<open>(v ?? "").toString()\<close>.\<close>

fun coalesce :: "jsval option \<Rightarrow> string" where
  "coalesce None = []"
| "coalesce (Some JNull) = []"
| "coalesce (Some (JString s)) = s"

text \<open>\<^verbatim>\<open>const get = (key) => (rec[key] ?? "").toString().trim();\<close>\<close>

definition get :: "rawRecord \<Rightarrow> string \<Rightarrow> string" where
  "get rec key = trim (coalesce (map_of rec key))"

section \<open>pickLink\<close>

text \<open>
  The regular expression \<^verbatim>\<open>/^\s*(NA or TBC|N\/A)\s*$/i\<close>. With the flag \<^verbatim>\<open>i\<close> two code
  units match when their canonical forms (the upper-case mapping) agree; the pattern's
  letters are ASCII and no code unit from 128 on canonicalizes to an ASCII one, so only
  the ASCII letters are folded.
\<close>

definition canonicalize :: "char \<Rightarrow> char" where
  "canonicalize c =
     (let n = (of_char c :: nat)
      in if 97 \<le> n \<and> n \<le> 122 then char_of (n - 32) else c)"

text \<open>Match a literal of the pattern at the front of the input; what is left of the input.\<close>

fun matchLiteral :: "string \<Rightarrow> string \<Rightarrow> string option" where
  "matchLiteral [] s = Some s"
| "matchLiteral (p # ps) [] = None"
| "matchLiteral (p # ps) (c # cs) =
     (if canonicalize p = canonicalize c then matchLiteral ps cs else None)"

text \<open>One alternative of the group, then \<^verbatim>\<open>\s*$\<close>.\<close>

definition matchAlternative :: "string \<Rightarrow> string \<Rightarrow> bool" where
  "matchAlternative lit s =
     (case matchLiteral lit s of None \<Rightarrow> False | Some rest \<Rightarrow> list_all isWhiteSpace rest)"

definition placeholderTest :: "string \<Rightarrow> bool" where
  "placeholderTest val =
     (let s = dropWhile isWhiteSpace val
      in matchAlternative ''NA or TBC'' s \<or> matchAlternative ''N/A'' s)"

text \<open>
  \<^verbatim>\<open>isUrl\<close>; \<^verbatim>\<open>typeof val === "string"\<close> holds of every value of the model's type.
\<close>

definition isUrl :: "string \<Rightarrow> bool" where
  "isUrl val = (startsWith val ''http'' \<and> \<not> placeholderTest val)"

definition pickLink :: "string \<Rightarrow> string \<Rightarrow> string" where
  "pickLink externalRef pointOfContact =
     (if isUrl externalRef then externalRef
      else if isUrl pointOfContact then pointOfContact
      else [])"

section \<open>normaliseRecord\<close>

text \<open>
  The object that \<^verbatim>\<open>normaliseRecord\<close> returns. Its property \<^verbatim>\<open>id\<close> is the field
  \<open>ident\<close> and its property \<^verbatim>\<open>keywords\<close> the field \<open>keywords_fld\<close>, the source's names
  being taken in Isabelle.
\<close>

record normalisedRecord =
  ident :: string
  title :: string
  citation :: string
  description :: string
  timePeriod :: string
  category :: string
  custodian :: string
  keywords_fld :: string
  link :: string
  raw :: rawRecord

text \<open>The callback of \<^verbatim>\<open>find\<close>: \<^verbatim>\<open>(k) => k.toLowerCase().startsWith("keywords")\<close>.\<close>

definition isKeywordsKey :: "string \<Rightarrow> bool" where
  "isKeywordsKey k = startsWith (toLowerCase k) ''keywords''"

definition normaliseRecord :: "string \<Rightarrow> rawRecord \<Rightarrow> normalisedRecord" where
  "normaliseRecord ttl rec =
     (let kwKey = find isKeywordsKey (map fst rec);
          kw = (case kwKey of
                  None \<Rightarrow> []
                | Some k \<Rightarrow> if k \<noteq> [] then trim (coalesce (map_of rec k)) else []);
          descr = orElse (get rec ''Description'')
                    (orElse (get rec ''Detailed Description'')
                       (get rec ''Overview Description''));
          tp = get rec ''Time Period of Content'';
          cat = get rec ''Data Category'';
          cust = get rec ''Data Custodian'';
          externalRef = get rec ''External Metadata Reference'';
          pointOfContact = get rec ''Point of Contact'';
          lnk = pickLink externalRef pointOfContact
      in \<lparr> ident = ttl, title = ttl, citation = get rec ''Citation'', description = descr,
           timePeriod = tp, category = cat, custodian = cust, keywords_fld = kw, link = lnk,
           raw = rec \<rparr>)"

text \<open>\<^verbatim>\<open>const records = Object.entries(parsed).map(([title, rec]) => normaliseRecord(title, rec));\<close>\<close>

definition records :: "(string \<times> rawRecord) list \<Rightarrow> normalisedRecord list" where
  "records parsed = map (\<lambda>(ttl, rec). normaliseRecord ttl rec) parsed"

section \<open>getFilteredRecords\<close>

text \<open>The three controls the function reads: their \<^verbatim>\<open>value\<close> properties.\<close>

record controls =
  searchInput :: string
  categoryFilter :: string
  yearFilter :: string

definition haystack :: "normalisedRecord \<Rightarrow> string" where
  "haystack r =
     toLowerCase
       (join '' '' [title r, citation r, description r, keywords_fld r, category r, custodian r])"

text \<open>The callback of \<^verbatim>\<open>records.filter\<close>, its early returns in the source's order.\<close>

definition keepRecord :: "string \<Rightarrow> string \<Rightarrow> string \<Rightarrow> normalisedRecord \<Rightarrow> bool" where
  "keepRecord q cat year r =
     (if cat \<noteq> [] \<and> category r \<noteq> cat then False
      else if year \<noteq> [] \<and> timePeriod r \<noteq> year then False
      else if q = [] then True
      else includes_js (haystack r) q)"

definition getFilteredRecords :: "normalisedRecord list \<Rightarrow> controls \<Rightarrow> normalisedRecord list" where
  "getFilteredRecords recs ui =
     (let q = toLowerCase (orElse (searchInput ui) []);
          cat = categoryFilter ui;
          year = yearFilter ui
      in filter (keepRecord q cat year) recs)"

section \<open>The specification's wording\<close>

text \<open>
  The Query Engine of the specification: a record is included iff the category test, the
  time-period test and the substring test all hold. \<^const>\<open>sublist\<close> is "occurs as a
  contiguous substring".
\<close>

definition included_spec :: "controls \<Rightarrow> normalisedRecord \<Rightarrow> bool" where
  "included_spec ui r =
     ((categoryFilter ui \<noteq> [] \<longrightarrow> category r = categoryFilter ui) \<and>
      (yearFilter ui \<noteq> [] \<longrightarrow> timePeriod r = yearFilter ui) \<and>
      (toLowerCase (searchInput ui) \<noteq> [] \<longrightarrow>
         sublist (toLowerCase (searchInput ui))
           (toLowerCase (title r @ '' '' @ citation r @ '' '' @ description r @ '' '' @
              keywords_fld r @ '' '' @ category r @ '' '' @ custodian r))))"

text \<open>
  The Link Resolver of the specification. A placeholder is a text that, without its
  leading and trailing white space and without regard to case, is \<^verbatim>\<open>NA or TBC\<close> or
  \<^verbatim>\<open>N/A\<close>; a candidate qualifies when it is non-empty, its trimmed text starts with
  \<^verbatim>\<open>http\<close>, and it is no placeholder.
\<close>

definition isPlaceholder_spec :: "string \<Rightarrow> bool" where
  "isPlaceholder_spec v =
     (map canonicalize (trim v) = ''NA OR TBC'' \<or> map canonicalize (trim v) = ''N/A'')"

definition qualifies_spec :: "string \<Rightarrow> bool" where
  "qualifies_spec v = (v \<noteq> [] \<and> startsWith (trim v) ''http'' \<and> \<not> isPlaceholder_spec v)"

definition resolveLink_spec :: "string \<Rightarrow> string \<Rightarrow> string" where
  "resolveLink_spec primary secondary =
     (if qualifies_spec primary then primary
      else if qualifies_spec secondary then secondary
      else [])"

text \<open>The same test on the text as it is passed, not trimmed.\<close>

definition qualifies_untrimmed :: "string \<Rightarrow> bool" where
  "qualifies_untrimmed v = (v \<noteq> [] \<and> startsWith v ''http'' \<and> \<not> isPlaceholder_spec v)"

text \<open>\<^verbatim>\<open>isUrl\<close> and \<^verbatim>\<open>pickLink\<close> with the regular expression clause deleted.\<close>

definition isUrl_prefixOnly :: "string \<Rightarrow> bool" where
  "isUrl_prefixOnly val = startsWith val ''http''"

definition pickLink_prefixOnly :: "string \<Rightarrow> string \<Rightarrow> string" where
  "pickLink_prefixOnly externalRef pointOfContact =
     (if isUrl_prefixOnly externalRef then externalRef
      else if isUrl_prefixOnly pointOfContact then pointOfContact
      else [])"

text \<open>
  Description resolution of the specification, on the raw values. A text \<open>t\<close> is the
  trimmed text of \<open>s\<close> when \<open>s\<close> is \<open>t\<close> with white space only before and after it, and
  \<open>t\<close> neither starts nor ends with white space. A field is empty when the record does
  not have it, when it is \<^verbatim>\<open>null\<close>, or when it is white space only (empty after
  trimming); otherwise it yields its trimmed text, which is non-empty.
\<close>

definition isTrimmedTextOf :: "string \<Rightarrow> string \<Rightarrow> bool" where
  "isTrimmedTextOf t s =
     (\<exists>a b. s = a @ t @ b \<and> list_all isWhiteSpace a \<and> list_all isWhiteSpace b \<and>
            (t = [] \<or> (\<not> isWhiteSpace (hd t) \<and> \<not> isWhiteSpace (last t))))"

definition fieldEmpty_spec :: "rawRecord \<Rightarrow> string \<Rightarrow> bool" where
  "fieldEmpty_spec rec key =
     (case map_of rec key of
        None \<Rightarrow> True
      | Some JNull \<Rightarrow> True
      | Some (JString s) \<Rightarrow> list_all isWhiteSpace s)"

definition fieldYields_spec :: "rawRecord \<Rightarrow> string \<Rightarrow> string \<Rightarrow> bool" where
  "fieldYields_spec rec key t =
     (\<exists>s. map_of rec key = Some (JString s) \<and> t \<noteq> [] \<and> isTrimmedTextOf t s)"

section \<open>Example data\<close>

definition oceanSurvey :: normalisedRecord where
  "oceanSurvey =
     \<lparr> ident = ''Ocean Survey'', title = ''Ocean Survey'', citation = ''Smith 2020'',
       description = ''Seagrass extent'', timePeriod = ''2020'', category = ''Marine'',
       custodian = ''Council'', keywords_fld = ''seagrass, bay'', link = [], raw = [] \<rparr>"

definition riverGauge :: normalisedRecord where
  "riverGauge =
     \<lparr> ident = ''River Gauge'', title = ''River Gauge'', citation = [],
       description = ''Flow of the ocean-bound river'', timePeriod = ''2019'',
       category = ''Freshwater'', custodian = ''Council'', keywords_fld = [], link = [],
       raw = [] \<rparr>"

definition blankRecord :: normalisedRecord where
  "blankRecord =
     \<lparr> ident = [], title = [], citation = [], description = [], timePeriod = [],
       category = [], custodian = [], keywords_fld = [], link = [], raw = [] \<rparr>"

definition exampleParsed :: "(string \<times> rawRecord) list" where
  "exampleParsed =
     [(''T'', [(''Keywords (comma sep)'', JString ''x, y''), (''Title'', JString ''T'')]),
      (''U'', [(''Description'', JString []), (''Detailed Description'', JString ''D2'')])]"

definition exampleRaw :: rawRecord where
  "exampleRaw =
     [(''Title'', JString ''T''), (''KEYWORDS (comma sep)'', JString '' x, y ''),
      (''Keywords'', JString ''z'')]"

definition exampleDescriptions :: rawRecord where
  "exampleDescriptions =
     [(''Description'', JString ''  ''), (''Detailed Description'', JNull),
      (''Overview Description'', JString '' D3 x  '')]"

definition exampleLinks :: rawRecord where
  "exampleLinks =
     [(''External Metadata Reference'', JString ''  NA or TBC ''),
      (''Point of Contact'', JString '' http://b.org  '')]"

section \<open>Facts about the string operations\<close>

lemma toLowerCase_Nil_iff [simp]: "toLowerCase s = [] \<longleftrightarrow> s = []"
  by (simp add: toLowerCase_def)

lemma length_toLowerCase [simp]: "length (toLowerCase s) = length s"
  by (simp add: toLowerCase_def)

lemma includes_js_sublist: "includes_js h q \<longleftrightarrow> sublist q h"
  by (induction h) (simp_all add: sublist_Cons_right)

lemma orElse_Nil [simp]: "orElse a [] = a"
  by (simp add: orElse_def)

lemma lowerUnit_space: "lowerUnit CHR '' '' = CHR '' ''"
  by code_simp

lemma lowerUnit_whitespace: "isWhiteSpace c \<Longrightarrow> lowerUnit c = c"
  unfolding isWhiteSpace_def by (elim disjE; hypsubst; code_simp)

lemma toLowerCase_whitespace: "list_all isWhiteSpace q \<Longrightarrow> toLowerCase q = q"
  by (induction q) (simp_all add: toLowerCase_def lowerUnit_whitespace)

lemma takeWhile_whitespace: "list_all isWhiteSpace (takeWhile isWhiteSpace xs)"
  by (simp add: list_all_iff) (meson set_takeWhileD)

lemma trim_Nil_iff: "trim s = [] \<longleftrightarrow> list_all isWhiteSpace s"
proof
  assume "trim s = []"
  then have all: "\<forall>x\<in>set (dropWhile isWhiteSpace s). isWhiteSpace x"
    by (simp add: trim_def dropWhile_eq_Nil_conv)
  have "dropWhile isWhiteSpace s = []"
  proof (rule ccontr)
    assume ne: "dropWhile isWhiteSpace s \<noteq> []"
    then have "\<not> isWhiteSpace (hd (dropWhile isWhiteSpace s))"
      by (rule hd_dropWhile)
    with all ne show False
      by (meson hd_in_set)
  qed
  then show "list_all isWhiteSpace s"
    by (simp add: dropWhile_eq_Nil_conv list_all_iff)
next
  assume "list_all isWhiteSpace s"
  then show "trim s = []"
    by (auto simp add: trim_def dropWhile_eq_Nil_conv list_all_iff dest: set_dropWhileD)
qed

text \<open>
  White space around a text that neither starts nor ends with white space is what
  \<^const>\<open>trim\<close> removes.
\<close>

lemma trim_sandwich:
  assumes "list_all isWhiteSpace a" and "list_all isWhiteSpace b"
    and "core \<noteq> []" and "\<not> isWhiteSpace (hd core)" and "\<not> isWhiteSpace (last core)"
  shows "trim (a @ core @ b) = core"
proof -
  from assms(3,4) have d1: "dropWhile isWhiteSpace (core @ b) = core @ b"
    by (cases core) auto
  from assms(1) have "dropWhile isWhiteSpace (a @ core @ b) = core @ b"
    by (simp add: dropWhile_append2 list_all_iff d1)
  moreover from assms(3,5) have "dropWhile isWhiteSpace (rev core) = rev core"
    by (cases core rule: rev_cases) auto
  moreover from assms(2) have "dropWhile isWhiteSpace (rev b @ rev core) =
      dropWhile isWhiteSpace (rev core)"
    by (intro dropWhile_append2) (simp add: list_all_iff)
  ultimately show ?thesis
    by (simp add: trim_def)
qed

lemma dropWhile_trim_decomp:
  "dropWhile isWhiteSpace v =
     trim v @ rev (takeWhile isWhiteSpace (rev (dropWhile isWhiteSpace v)))"
proof -
  define xs where "xs = rev (dropWhile isWhiteSpace v)"
  have "rev xs = rev (dropWhile isWhiteSpace xs) @ rev (takeWhile isWhiteSpace xs)"
    by (metis rev_append takeWhile_dropWhile_id)
  then show ?thesis
    by (simp add: trim_def xs_def)
qed

text \<open>
  \<^const>\<open>trim\<close> gives the trimmed text in the sense of \<^const>\<open>isTrimmedTextOf\<close>, and nothing
  else is; so trimming twice is trimming once, and what \<^const>\<open>get\<close> returns is trimmed.
\<close>

lemma trim_hd: "trim s \<noteq> [] \<Longrightarrow> \<not> isWhiteSpace (hd (trim s))"
proof -
  assume ne: "trim s \<noteq> []"
  have "dropWhile isWhiteSpace s =
      trim s @ rev (takeWhile isWhiteSpace (rev (dropWhile isWhiteSpace s)))"
    by (rule dropWhile_trim_decomp)
  with ne have "hd (trim s) = hd (dropWhile isWhiteSpace s)"
    by (metis hd_append2)
  moreover from ne have "\<not> list_all isWhiteSpace s"
    by (simp add: trim_Nil_iff)
  then have "dropWhile isWhiteSpace s \<noteq> []"
    by (simp add: dropWhile_eq_Nil_conv list_all_iff)
  then have "\<not> isWhiteSpace (hd (dropWhile isWhiteSpace s))"
    by (rule hd_dropWhile)
  ultimately show ?thesis by simp
qed

lemma trim_last: "trim s \<noteq> [] \<Longrightarrow> \<not> isWhiteSpace (last (trim s))"
proof -
  assume ne: "trim s \<noteq> []"
  then have ne': "dropWhile isWhiteSpace (rev (dropWhile isWhiteSpace s)) \<noteq> []"
    by (simp add: trim_def)
  then have "\<not> isWhiteSpace (hd (dropWhile isWhiteSpace (rev (dropWhile isWhiteSpace s))))"
    by (rule hd_dropWhile)
  with ne' show ?thesis
    by (simp add: trim_def last_rev)
qed

lemma trim_isTrimmedTextOf: "isTrimmedTextOf (trim s) s"
proof -
  have "s = takeWhile isWhiteSpace s @ trim s @
      rev (takeWhile isWhiteSpace (rev (dropWhile isWhiteSpace s)))"
    using dropWhile_trim_decomp [of s] by (metis takeWhile_dropWhile_id)
  moreover have "list_all isWhiteSpace (takeWhile isWhiteSpace s)"
    by (rule takeWhile_whitespace)
  moreover have "list_all isWhiteSpace
      (rev (takeWhile isWhiteSpace (rev (dropWhile isWhiteSpace s))))"
    by (simp add: takeWhile_whitespace)
  moreover have "trim s = [] \<or>
      (\<not> isWhiteSpace (hd (trim s)) \<and> \<not> isWhiteSpace (last (trim s)))"
    using trim_hd trim_last by blast
  ultimately show ?thesis
    unfolding isTrimmedTextOf_def by blast
qed

lemma isTrimmedTextOf_unique:
  assumes "isTrimmedTextOf t s"
  shows "t = trim s"
proof -
  from assms obtain a b where s: "s = a @ t @ b"
    and a: "list_all isWhiteSpace a" and b: "list_all isWhiteSpace b"
    and t: "t = [] \<or> (\<not> isWhiteSpace (hd t) \<and> \<not> isWhiteSpace (last t))"
    unfolding isTrimmedTextOf_def by blast
  show ?thesis
  proof (cases "t = []")
    case True
    with s a b have "list_all isWhiteSpace s" by simp
    then have "trim s = []" by (simp add: trim_Nil_iff)
    with True show ?thesis by simp
  next
    case False
    with t have "\<not> isWhiteSpace (hd t)" "\<not> isWhiteSpace (last t)" by auto
    with a b False have "trim (a @ t @ b) = t" by (rule trim_sandwich)
    with s show ?thesis by simp
  qed
qed

lemma trim_idem: "trim (trim s) = trim s"
proof -
  have "isTrimmedTextOf (trim s) (trim s)"
    using trim_hd [of s] trim_last [of s]
    unfolding isTrimmedTextOf_def
    by (intro exI [of _ "[]"]) auto
  then show ?thesis
    by (rule isTrimmedTextOf_unique [symmetric])
qed

lemma trim_get: "trim (get rec key) = get rec key"
  by (simp add: get_def trim_idem)

section \<open>The query engine\<close>

lemma keepRecord_iff:
  "keepRecord q cat year r \<longleftrightarrow>
     (cat \<noteq> [] \<longrightarrow> category r = cat) \<and> (year \<noteq> [] \<longrightarrow> timePeriod r = year) \<and>
     (q \<noteq> [] \<longrightarrow> sublist q (haystack r))"
  by (auto simp add: keepRecord_def includes_js_sublist)

lemma keepRecord_fun:
  "keepRecord q cat year =
     (\<lambda>r. (cat \<noteq> [] \<longrightarrow> category r = cat) \<and> (year \<noteq> [] \<longrightarrow> timePeriod r = year) \<and>
          (q \<noteq> [] \<longrightarrow> sublist q (haystack r)))"
  by (rule ext) (simp add: keepRecord_iff)

lemma keepRecord_included_spec:
  "keepRecord (toLowerCase (searchInput ui)) (categoryFilter ui) (yearFilter ui) =
     included_spec ui"
  by (rule ext) (simp add: keepRecord_iff included_spec_def haystack_def)

lemma haystack_has_space: "sublist '' '' (haystack r)"
proof -
  have "haystack r = toLowerCase (title r) @ '' '' @
      toLowerCase (citation r @ '' '' @ description r @ '' '' @
              keywords_fld r @ '' '' @ category r @ '' '' @ custodian r)"
    by (simp add: haystack_def toLowerCase_def lowerUnit_space)
  then show ?thesis
    by (metis sublist_appendI)
qed

text \<open>
  Claim C1. For every collection and every state of the three controls, the filtered
  result is the collection filtered by the conjunction of the three conditions of the
  specification: the category, when one is selected, equals the record's exactly; the
  time period likewise; the lower-cased query, when non-empty, occurs in the lower-cased
  text of title, citation, description, keywords, category and custodian joined by single
  spaces. The result is a subsequence of the collection, and a record is in it iff it is
  in the collection and meets the three conditions.
\<close>

theorem getFilteredRecords_conjunction:
  "getFilteredRecords recs ui = filter (included_spec ui) recs \<and>
   subseq (getFilteredRecords recs ui) recs \<and>
   (r \<in> set (getFilteredRecords recs ui) \<longleftrightarrow> r \<in> set recs \<and> included_spec ui r)"
proof -
  have eq: "getFilteredRecords recs ui = filter (included_spec ui) recs"
    by (simp add: getFilteredRecords_def keepRecord_included_spec)
  show ?thesis
    unfolding eq by simp
qed

text \<open>
  At a concrete input: the query \<^verbatim>\<open>OCEAN\<close> occurs in both records once lower-cased, the
  category \<^verbatim>\<open>Marine\<close> keeps only the first; the category \<^verbatim>\<open>marine\<close> matches neither.
\<close>

theorem getFilteredRecords_conjunction_witness:
  "filter (included_spec \<lparr>searchInput = ''OCEAN'', categoryFilter = ''Marine'', yearFilter = []\<rparr>)
      [oceanSurvey, riverGauge] = [oceanSurvey] \<and>
   filter (included_spec \<lparr>searchInput = [], categoryFilter = ''marine'', yearFilter = []\<rparr>)
      [oceanSurvey, riverGauge] = []"
proof -
  have "filter (included_spec \<lparr>searchInput = ''OCEAN'', categoryFilter = ''Marine'', yearFilter = []\<rparr>)
      [oceanSurvey, riverGauge] =
      getFilteredRecords [oceanSurvey, riverGauge]
        \<lparr>searchInput = ''OCEAN'', categoryFilter = ''Marine'', yearFilter = []\<rparr>"
    by (rule sym) (rule getFilteredRecords_conjunction [THEN conjunct1])
  also have "\<dots> = [oceanSurvey]"
    by code_simp
  finally have a: "filter (included_spec \<lparr>searchInput = ''OCEAN'', categoryFilter = ''Marine'', yearFilter = []\<rparr>)
      [oceanSurvey, riverGauge] = [oceanSurvey]" .
  have "filter (included_spec \<lparr>searchInput = [], categoryFilter = ''marine'', yearFilter = []\<rparr>)
      [oceanSurvey, riverGauge] =
      getFilteredRecords [oceanSurvey, riverGauge]
        \<lparr>searchInput = [], categoryFilter = ''marine'', yearFilter = []\<rparr>"
    by (rule sym) (rule getFilteredRecords_conjunction [THEN conjunct1])
  also have "\<dots> = []"
    by code_simp
  finally have b: "filter (included_spec \<lparr>searchInput = [], categoryFilter = ''marine'', yearFilter = []\<rparr>)
      [oceanSurvey, riverGauge] = []" .
  from a b show ?thesis
    by (rule conjI)
qed

text \<open>
  Claim C6. With the empty state of the controls (no query, no category, no time period)
  the filter returns the whole collection in its order; and an empty query leaves the
  category and time-period tests as the only conditions.
\<close>

theorem getFilteredRecords_empty_state:
  "getFilteredRecords recs \<lparr>searchInput = [], categoryFilter = [], yearFilter = []\<rparr> = recs \<and>
   getFilteredRecords recs \<lparr>searchInput = [], categoryFilter = cat, yearFilter = year\<rparr> =
     filter (\<lambda>r. (cat \<noteq> [] \<longrightarrow> category r = cat) \<and> (year \<noteq> [] \<longrightarrow> timePeriod r = year)) recs"
  by (simp add: getFilteredRecords_def keepRecord_fun toLowerCase_def)

theorem getFilteredRecords_empty_state_witness:
  "getFilteredRecords [oceanSurvey, riverGauge, blankRecord]
     \<lparr>searchInput = [], categoryFilter = [], yearFilter = []\<rparr> =
     [oceanSurvey, riverGauge, blankRecord]"
  using getFilteredRecords_empty_state [of "[oceanSurvey, riverGauge, blankRecord]"]
  by (rule conjunct1)

text \<open>
  Claim C7. Filtering is idempotent: filtering the filtered result again with the same
  state of the controls gives the filtered result.
\<close>

theorem getFilteredRecords_idempotent:
  "getFilteredRecords (getFilteredRecords recs ui) ui = getFilteredRecords recs ui"
  by (simp add: getFilteredRecords_def Let_def)

theorem getFilteredRecords_idempotent_witness:
  "getFilteredRecords
     (getFilteredRecords [oceanSurvey, riverGauge]
        \<lparr>searchInput = ''ocean'', categoryFilter = [], yearFilter = ''2019''\<rparr>)
     \<lparr>searchInput = ''ocean'', categoryFilter = [], yearFilter = ''2019''\<rparr> = [riverGauge]"
proof -
  have a: "getFilteredRecords [oceanSurvey, riverGauge]
        \<lparr>searchInput = ''ocean'', categoryFilter = [], yearFilter = ''2019''\<rparr> = [riverGauge]"
    by code_simp
  have "getFilteredRecords
     (getFilteredRecords [oceanSurvey, riverGauge]
        \<lparr>searchInput = ''ocean'', categoryFilter = [], yearFilter = ''2019''\<rparr>)
     \<lparr>searchInput = ''ocean'', categoryFilter = [], yearFilter = ''2019''\<rparr> =
     getFilteredRecords [oceanSurvey, riverGauge]
        \<lparr>searchInput = ''ocean'', categoryFilter = [], yearFilter = ''2019''\<rparr>"
    by (rule getFilteredRecords_idempotent)
  also note a
  finally show ?thesis .
qed

text \<open>
  Claim C8. A query that is non-empty and consists of white space only is not trimmed:
  it stays a non-empty filter, lower-casing leaves it as it is, and a record passes iff
  the category and time-period tests hold and its lower-cased haystack contains the white
  space string itself.
\<close>

theorem getFilteredRecords_whitespace_query:
  assumes "q \<noteq> []" and "list_all isWhiteSpace q"
  shows "getFilteredRecords recs \<lparr>searchInput = q, categoryFilter = cat, yearFilter = year\<rparr> =
     filter (\<lambda>r. (cat \<noteq> [] \<longrightarrow> category r = cat) \<and> (year \<noteq> [] \<longrightarrow> timePeriod r = year) \<and>
                 sublist q (haystack r)) recs"
  using assms
  by (simp add: getFilteredRecords_def orElse_def toLowerCase_whitespace keepRecord_fun)

text \<open>
  At a query of two spaces: the record whose haystack has single spaces only is dropped,
  the record of empty fields (haystack of five spaces) is kept; the empty query keeps both.
\<close>

theorem getFilteredRecords_whitespace_query_witness:
  "''  '' \<noteq> [] \<and> list_all isWhiteSpace ''  '' \<and>
   filter (\<lambda>r. sublist ''  '' (haystack r)) [oceanSurvey, blankRecord] = [blankRecord] \<and>
   getFilteredRecords [oceanSurvey, blankRecord]
     \<lparr>searchInput = [], categoryFilter = [], yearFilter = []\<rparr> = [oceanSurvey, blankRecord]"
proof -
  have h1: "''  '' \<noteq> []"
    by simp
  have h2: "list_all isWhiteSpace ''  ''"
    by code_simp
  have "getFilteredRecords [oceanSurvey, blankRecord]
          \<lparr>searchInput = ''  '', categoryFilter = [], yearFilter = []\<rparr> =
        filter (\<lambda>r. sublist ''  '' (haystack r)) [oceanSurvey, blankRecord]"
    using getFilteredRecords_whitespace_query [OF h1 h2, of "[oceanSurvey, blankRecord]" "[]" "[]"]
    by (simp only: simp_thms)
  moreover have "getFilteredRecords [oceanSurvey, blankRecord]
          \<lparr>searchInput = ''  '', categoryFilter = [], yearFilter = []\<rparr> = [blankRecord]"
    by code_simp
  ultimately have a: "filter (\<lambda>r. sublist ''  '' (haystack r)) [oceanSurvey, blankRecord] =
      [blankRecord]"
    by (rule trans [OF sym])
  have b: "getFilteredRecords [oceanSurvey, blankRecord]
     \<lparr>searchInput = [], categoryFilter = [], yearFilter = []\<rparr> = [oceanSurvey, blankRecord]"
    by code_simp
  from h1 h2 a b show ?thesis
    by (intro conjI)
qed

text \<open>
  Claim C9. With no category and no time period selected, the query of one space keeps
  every record: the haystack joins six fields with single spaces, so it contains a space
  whatever the fields are.
\<close>

theorem getFilteredRecords_single_space:
  "getFilteredRecords recs \<lparr>searchInput = '' '', categoryFilter = [], yearFilter = []\<rparr> = recs"
proof -
  have q: "toLowerCase '' '' = '' ''"
    by (simp add: toLowerCase_def lowerUnit_space)
  show ?thesis
    by (simp add: getFilteredRecords_def orElse_def q keepRecord_fun haystack_has_space)
qed

theorem getFilteredRecords_single_space_witness:
  "getFilteredRecords [oceanSurvey, blankRecord]
     \<lparr>searchInput = '' '', categoryFilter = [], yearFilter = []\<rparr> = [oceanSurvey, blankRecord]"
  by (rule getFilteredRecords_single_space)

section \<open>The link resolver\<close>

lemma not_whitespace_h: "\<not> isWhiteSpace CHR ''h''"
  by code_simp

lemma canonicalize_N_h: "canonicalize CHR ''N'' \<noteq> canonicalize CHR ''h''"
  by code_simp

lemma http_not_placeholder:
  assumes "startsWith v ''http''"
  shows "\<not> placeholderTest v"
proof -
  from assms obtain rest where v: "v = CHR ''h'' # rest"
    by (auto simp add: startsWith_def prefix_def)
  show ?thesis
    by (simp add: v placeholderTest_def not_whitespace_h matchAlternative_def canonicalize_N_h)
qed

text \<open>
  Claim C10. No text that starts with \<^verbatim>\<open>http\<close> matches the placeholder pattern, so the
  test \<^verbatim>\<open>isUrl\<close> is the prefix test alone, and \<^verbatim>\<open>pickLink\<close> with the pattern clause
  deleted returns the same result on all arguments.
\<close>

theorem isUrl_prefix_only:
  "\<not> (startsWith v ''http'' \<and> placeholderTest v) \<and>
   isUrl v = isUrl_prefixOnly v \<and>
   pickLink a b = pickLink_prefixOnly a b"
proof -
  have "isUrl w = isUrl_prefixOnly w" for w
    using http_not_placeholder [of w] by (auto simp add: isUrl_def isUrl_prefixOnly_def)
  then show ?thesis
    using http_not_placeholder [of v] by (auto simp add: pickLink_def pickLink_prefixOnly_def)
qed

theorem isUrl_prefix_only_witness:
  "isUrl ''http://N/A'' \<and> pickLink '' N/A '' ''https://b.org'' = ''https://b.org''"
proof -
  have "isUrl_prefixOnly ''http://N/A''"
    by code_simp
  moreover have "pickLink_prefixOnly '' N/A '' ''https://b.org'' = ''https://b.org''"
    by code_simp
  ultimately show ?thesis
    using isUrl_prefix_only [of "''http://N/A''" "'' N/A ''" "''https://b.org''"] by simp
qed

subsection \<open>The regular expression, read as the specification words it\<close>

lemma matchLiteral_Some_iff:
  "matchLiteral lit s = Some rest \<longleftrightarrow>
     (\<exists>core. s = core @ rest \<and> map canonicalize core = map canonicalize lit)"
proof (induction lit s rule: matchLiteral.induct)
  case (1 s)
  then show ?case by auto
next
  case (2 p ps)
  then show ?case by auto
next
  case (3 p ps c cs)
  show ?case
  proof (cases "canonicalize p = canonicalize c")
    case True
    have "(\<exists>core. c # cs = core @ rest \<and> map canonicalize core = map canonicalize (p # ps))
          \<longleftrightarrow> (\<exists>core'. cs = core' @ rest \<and> map canonicalize core' = map canonicalize ps)"
      (is "?L \<longleftrightarrow> ?R")
    proof
      assume ?L
      then obtain core where c: "c # cs = core @ rest"
        and m: "map canonicalize core = map canonicalize (p # ps)" by blast
      from m obtain d core' where core: "core = d # core'" by (cases core) auto
      with c m show ?R by auto
    next
      assume ?R
      then obtain core' where "cs = core' @ rest" "map canonicalize core' = map canonicalize ps"
        by blast
      with True have "c # cs = (c # core') @ rest \<and>
          map canonicalize (c # core') = map canonicalize (p # ps)" by simp
      then show ?L by blast
    qed
    with 3 True show ?thesis by simp
  next
    case False
    have "\<not> (\<exists>core. c # cs = core @ rest \<and> map canonicalize core = map canonicalize (p # ps))"
    proof
      assume "\<exists>core. c # cs = core @ rest \<and> map canonicalize core = map canonicalize (p # ps)"
      then obtain core where c: "c # cs = core @ rest"
        and m: "map canonicalize core = map canonicalize (p # ps)" by blast
      from m obtain d core' where core: "core = d # core'" by (cases core) auto
      with c m False show False by auto
    qed
    with False show ?thesis by simp
  qed
qed

lemma canonicalize_whitespace: "isWhiteSpace c \<Longrightarrow> canonicalize c = c"
  unfolding isWhiteSpace_def by (elim disjE; hypsubst; code_simp)

lemma canonicalize_upper:
  "map canonicalize ''NA or TBC'' = ''NA OR TBC''" "map canonicalize ''N/A'' = ''N/A''"
  by code_simp+

lemma canonicalize_not_whitespace:
  assumes "canonicalize c = canonicalize d" and "\<not> isWhiteSpace (canonicalize d)"
  shows "\<not> isWhiteSpace c"
  using assms canonicalize_whitespace by force

lemma matchAlternative_iff:
  assumes "lit \<noteq> []" and "\<not> isWhiteSpace (canonicalize (hd lit))"
    and "\<not> isWhiteSpace (canonicalize (last lit))"
  shows "matchAlternative lit (dropWhile isWhiteSpace v) \<longleftrightarrow>
           map canonicalize (trim v) = map canonicalize lit"
proof
  assume "matchAlternative lit (dropWhile isWhiteSpace v)"
  then obtain rest where m: "matchLiteral lit (dropWhile isWhiteSpace v) = Some rest"
    and ws: "list_all isWhiteSpace rest"
    by (auto simp add: matchAlternative_def split: option.splits)
  from m obtain core where d: "dropWhile isWhiteSpace v = core @ rest"
    and c: "map canonicalize core = map canonicalize lit"
    by (auto simp add: matchLiteral_Some_iff)
  from c assms(1) have ne: "core \<noteq> []" by auto
  from c ne assms(1) have "canonicalize (hd core) = canonicalize (hd lit)"
    by (metis hd_map)
  then have h: "\<not> isWhiteSpace (hd core)"
    using assms(2) by (rule canonicalize_not_whitespace)
  from c ne assms(1) have "canonicalize (last core) = canonicalize (last lit)"
    by (metis last_map)
  then have l: "\<not> isWhiteSpace (last core)"
    using assms(3) by (rule canonicalize_not_whitespace)
  have "v = takeWhile isWhiteSpace v @ core @ rest"
    using d by (metis takeWhile_dropWhile_id)
  moreover have "list_all isWhiteSpace (takeWhile isWhiteSpace v)"
    by (rule takeWhile_whitespace)
  ultimately have "trim v = core"
    using trim_sandwich [OF _ ws ne h l] by metis
  with c show "map canonicalize (trim v) = map canonicalize lit" by simp
next
  assume "map canonicalize (trim v) = map canonicalize lit"
  then have "matchLiteral lit (dropWhile isWhiteSpace v) =
      Some (rev (takeWhile isWhiteSpace (rev (dropWhile isWhiteSpace v))))"
    using dropWhile_trim_decomp [of v] by (auto simp add: matchLiteral_Some_iff)
  then show "matchAlternative lit (dropWhile isWhiteSpace v)"
    by (simp add: matchAlternative_def takeWhile_whitespace)
qed

lemma placeholderTest_spec: "placeholderTest v = isPlaceholder_spec v"
proof -
  have "''NA or TBC'' \<noteq> []"
    by simp
  moreover have "\<not> isWhiteSpace (canonicalize (hd ''NA or TBC''))"
    by code_simp
  moreover have "\<not> isWhiteSpace (canonicalize (last ''NA or TBC''))"
    by code_simp
  ultimately have "matchAlternative ''NA or TBC'' (dropWhile isWhiteSpace v) \<longleftrightarrow>
        map canonicalize (trim v) = map canonicalize ''NA or TBC''"
    by (rule matchAlternative_iff)
  then have a: "matchAlternative ''NA or TBC'' (dropWhile isWhiteSpace v) \<longleftrightarrow>
        map canonicalize (trim v) = ''NA OR TBC''"
    by (simp only: canonicalize_upper)
  have "''N/A'' \<noteq> []"
    by simp
  moreover have "\<not> isWhiteSpace (canonicalize (hd ''N/A''))"
    by code_simp
  moreover have "\<not> isWhiteSpace (canonicalize (last ''N/A''))"
    by code_simp
  ultimately have "matchAlternative ''N/A'' (dropWhile isWhiteSpace v) \<longleftrightarrow>
        map canonicalize (trim v) = map canonicalize ''N/A''"
    by (rule matchAlternative_iff)
  then have b: "matchAlternative ''N/A'' (dropWhile isWhiteSpace v) \<longleftrightarrow>
        map canonicalize (trim v) = ''N/A''"
    by (simp only: canonicalize_upper)
  show ?thesis
    by (simp add: placeholderTest_def isPlaceholder_spec_def a b)
qed

lemma isUrl_qualifies_untrimmed: "isUrl v = qualifies_untrimmed v"
  by (auto simp add: isUrl_def qualifies_untrimmed_def placeholderTest_spec startsWith_def)

lemma isUrl_qualifies_spec: "trim v = v \<Longrightarrow> isUrl v = qualifies_spec v"
  by (simp add: isUrl_qualifies_untrimmed qualifies_untrimmed_def qualifies_spec_def)

lemma pickLink_trimmed:
  "trim primary = primary \<Longrightarrow> trim secondary = secondary \<Longrightarrow>
     pickLink primary secondary = resolveLink_spec primary secondary"
  by (simp add: pickLink_def resolveLink_spec_def isUrl_qualifies_spec)

text \<open>
  Claim C2. \<^verbatim>\<open>pickLink\<close> has one call, in \<^verbatim>\<open>normaliseRecord\<close>, and its two candidates
  are field texts that \<^verbatim>\<open>get\<close> has trimmed. On every pair of trimmed candidates, hence on
  every pair that \<^verbatim>\<open>get\<close> returns, \<^verbatim>\<open>pickLink\<close> is the resolver of the specification: the
  first candidate if it qualifies, else the second if it qualifies, else the empty string,
  a candidate qualifying iff it is non-empty, its trimmed text starts with \<^verbatim>\<open>http\<close>, and
  it is not, ignoring case and surrounding white space, the whole of \<^verbatim>\<open>NA or TBC\<close> or
  \<^verbatim>\<open>N/A\<close>. The link of a normalised record is that resolver applied to the two fields.
\<close>

theorem pickLink_resolveLink_spec:
  "(trim primary = primary \<and> trim secondary = secondary \<longrightarrow>
      pickLink primary secondary = resolveLink_spec primary secondary) \<and>
   pickLink (get rec a) (get rec b) = resolveLink_spec (get rec a) (get rec b) \<and>
   link (normaliseRecord ttl rec) =
     resolveLink_spec (get rec ''External Metadata Reference'') (get rec ''Point of Contact'')"
proof (intro conjI impI)
  assume "trim primary = primary \<and> trim secondary = secondary"
  then show "pickLink primary secondary = resolveLink_spec primary secondary"
    by (simp add: pickLink_trimmed)
next
  show c: "pickLink (get rec a) (get rec b) = resolveLink_spec (get rec a) (get rec b)" for a b
    by (rule pickLink_trimmed) (rule trim_get)+
  show "link (normaliseRecord ttl rec) =
     resolveLink_spec (get rec ''External Metadata Reference'') (get rec ''Point of Contact'')"
    by (simp add: normaliseRecord_def Let_def c)
qed

text \<open>
  The three examples of the specification, and a record whose two fields carry white
  space around a placeholder and around a link.
\<close>

theorem pickLink_resolveLink_spec_witness:
  "pickLink ''http://a.org'' ''anything'' = ''http://a.org'' \<and>
   pickLink ''NA or TBC'' ''http://b.org'' = ''http://b.org'' \<and>
   pickLink ''N/A'' ''N/A'' = [] \<and>
   link (normaliseRecord ''T'' exampleLinks) = ''http://b.org''"
proof -
  have t: "trim ''http://a.org'' = ''http://a.org'' \<and> trim ''anything'' = ''anything''"
    "trim ''NA or TBC'' = ''NA or TBC'' \<and> trim ''http://b.org'' = ''http://b.org''"
    "trim ''N/A'' = ''N/A'' \<and> trim ''N/A'' = ''N/A''"
    by code_simp+
  have r: "resolveLink_spec ''http://a.org'' ''anything'' = ''http://a.org''"
    "resolveLink_spec ''NA or TBC'' ''http://b.org'' = ''http://b.org''"
    "resolveLink_spec ''N/A'' ''N/A'' = []"
    "resolveLink_spec (get exampleLinks ''External Metadata Reference'')
       (get exampleLinks ''Point of Contact'') = ''http://b.org''"
    by code_simp+
  have "pickLink ''http://a.org'' ''anything'' = resolveLink_spec ''http://a.org'' ''anything''"
    using pickLink_resolveLink_spec [of "''http://a.org''" "''anything''"] t(1) by blast
  moreover have "pickLink ''NA or TBC'' ''http://b.org'' =
      resolveLink_spec ''NA or TBC'' ''http://b.org''"
    using pickLink_resolveLink_spec [of "''NA or TBC''" "''http://b.org''"] t(2) by blast
  moreover have "pickLink ''N/A'' ''N/A'' = resolveLink_spec ''N/A'' ''N/A''"
    using pickLink_resolveLink_spec [of "''N/A''" "''N/A''"] t(3) by blast
  moreover have "link (normaliseRecord ''T'' exampleLinks) =
      resolveLink_spec (get exampleLinks ''External Metadata Reference'')
       (get exampleLinks ''Point of Contact'')"
    using pickLink_resolveLink_spec [of _ _ exampleLinks _ _ "''T''"] by blast
  ultimately show ?thesis
    by (simp only: r simp_thms)
qed

section \<open>The record normaliser\<close>

lemma get_Nil_iff:
  "get rec key = [] \<longleftrightarrow>
     (case map_of rec key of None \<Rightarrow> True | Some JNull \<Rightarrow> True
      | Some (JString s) \<Rightarrow> list_all isWhiteSpace s)"
  by (simp add: get_def trim_Nil_iff split: option.splits jsval.splits)

lemma map_of_first_index:
  "i < length rec \<Longrightarrow> \<forall>j<i. fst (rec ! j) \<noteq> fst (rec ! i) \<Longrightarrow>
     map_of rec (fst (rec ! i)) = Some (snd (rec ! i))"
proof (induction rec arbitrary: i)
  case Nil
  then show ?case by simp
next
  case (Cons p rec)
  show ?case
  proof (cases i)
    case 0
    then show ?thesis by simp
  next
    case (Suc n)
    from Cons.prems(2) Suc have ne: "fst p \<noteq> fst (rec ! n)"
      by auto
    from Cons.prems(2) Suc have "\<forall>j<n. fst (rec ! j) \<noteq> fst (rec ! n)"
      by auto
    with Cons.IH [of n] Cons.prems(1) Suc have "map_of rec (fst (rec ! n)) = Some (snd (rec ! n))"
      by simp
    with ne Suc show ?thesis
      by (cases p) auto
  qed
qed

lemma not_isKeywordsKey_Nil: "\<not> isKeywordsKey []"
  by (simp add: isKeywordsKey_def startsWith_def toLowerCase_def)

text \<open>
  Claim C3. The keywords field comes from the first key, in the record's key order, whose
  lower-cased text starts with \<^verbatim>\<open>keywords\<close>: if the key at position \<open>i\<close> qualifies and no
  key before it does, the field is that entry's value (extracted as every field value
  is: \<^verbatim>\<open>null\<close> as the empty string, then trimmed); if no key qualifies, the field is the
  empty string.
\<close>

theorem normaliseRecord_keywords_first_key:
  "(\<forall>i<length rec.
      isKeywordsKey (fst (rec ! i)) \<and> (\<forall>j<i. \<not> isKeywordsKey (fst (rec ! j))) \<longrightarrow>
      keywords_fld (normaliseRecord ttl rec) = trim (coalesce (Some (snd (rec ! i))))) \<and>
   ((\<forall>k\<in>set (map fst rec). \<not> isKeywordsKey k) \<longrightarrow> keywords_fld (normaliseRecord ttl rec) = [])"
proof (intro conjI allI impI)
  fix i
  assume i: "i < length rec"
    and q: "isKeywordsKey (fst (rec ! i)) \<and> (\<forall>j<i. \<not> isKeywordsKey (fst (rec ! j)))"
  then have "find isKeywordsKey (map fst rec) = Some (fst (rec ! i))"
    by (auto simp add: find_Some_iff intro!: exI [of _ i])
  moreover from q have "fst (rec ! i) \<noteq> []"
    using not_isKeywordsKey_Nil by auto
  moreover from q have "\<forall>j<i. fst (rec ! j) \<noteq> fst (rec ! i)"
    by auto
  with i have "map_of rec (fst (rec ! i)) = Some (snd (rec ! i))"
    by (rule map_of_first_index)
  ultimately show "keywords_fld (normaliseRecord ttl rec) = trim (coalesce (Some (snd (rec ! i))))"
    by (simp add: normaliseRecord_def Let_def)
next
  assume "\<forall>k\<in>set (map fst rec). \<not> isKeywordsKey k"
  then have "find isKeywordsKey (map fst rec) = None"
    by (simp add: find_None_iff)
  then show "keywords_fld (normaliseRecord ttl rec) = []"
    by (simp add: normaliseRecord_def Let_def)
qed

text \<open>
  Two keys qualify in \<^const>\<open>exampleRaw\<close>; the earlier one, at position 1, gives the field.
\<close>

theorem normaliseRecord_keywords_first_key_witness:
  "keywords_fld (normaliseRecord ''T'' exampleRaw) = ''x, y'' \<and>
   keywords_fld (normaliseRecord ''T'' [(''Title'', JString ''T'')]) = []"
proof -
  have t: "\<not> isKeywordsKey ''Title''"
    by code_simp
  have k: "isKeywordsKey ''KEYWORDS (comma sep)''"
    by code_simp
  have "(1::nat) < length exampleRaw"
    by (simp add: exampleRaw_def)
  moreover have "isKeywordsKey (fst (exampleRaw ! 1)) \<and>
      (\<forall>j<1. \<not> isKeywordsKey (fst (exampleRaw ! j)))"
    by (simp add: exampleRaw_def t k)
  ultimately have "keywords_fld (normaliseRecord ''T'' exampleRaw) =
      trim (coalesce (Some (snd (exampleRaw ! 1))))"
    using normaliseRecord_keywords_first_key [of exampleRaw "''T''"] by blast
  also have "\<dots> = ''x, y''"
    by code_simp
  finally have a: "keywords_fld (normaliseRecord ''T'' exampleRaw) = ''x, y''" .
  have "\<forall>k\<in>set (map fst [(''Title'', JString ''T'')]). \<not> isKeywordsKey k"
    by (simp add: t)
  then have "keywords_fld (normaliseRecord ''T'' [(''Title'', JString ''T'')]) = []"
    using normaliseRecord_keywords_first_key [of "[(''Title'', JString ''T'')]" "''T''"] by blast
  with a show ?thesis
    by (rule conjI)
qed

lemma fieldEmpty_spec_get: "fieldEmpty_spec rec key \<longleftrightarrow> get rec key = []"
  by (simp add: fieldEmpty_spec_def get_Nil_iff)

lemma fieldYields_spec_get:
  assumes "\<not> fieldEmpty_spec rec key"
  shows "fieldYields_spec rec key (get rec key)"
proof -
  from assms obtain s where m: "map_of rec key = Some (JString s)"
    by (auto simp add: fieldEmpty_spec_def split: option.splits jsval.splits)
  then have g: "get rec key = trim s"
    by (simp add: get_def)
  moreover from assms have "get rec key \<noteq> []"
    by (simp add: fieldEmpty_spec_get)
  moreover have "isTrimmedTextOf (trim s) s"
    by (rule trim_isTrimmedTextOf)
  ultimately show ?thesis
    using m unfolding fieldYields_spec_def by auto
qed

text \<open>A field yields one text only.\<close>

lemma fieldYields_spec_unique:
  "fieldYields_spec rec key t \<Longrightarrow> fieldYields_spec rec key t' \<Longrightarrow> t = t'"
proof -
  assume "fieldYields_spec rec key t" and "fieldYields_spec rec key t'"
  then obtain s where "isTrimmedTextOf t s" and "isTrimmedTextOf t' s"
    unfolding fieldYields_spec_def by auto
  then have "t = trim s" and "t' = trim s"
    by (simp_all add: isTrimmedTextOf_unique)
  then show "t = t'"
    by simp
qed

text \<open>
  Claim C4. The description is the trimmed text of the first of the fields
  \<^verbatim>\<open>Description\<close>, \<^verbatim>\<open>Detailed Description\<close> and \<^verbatim>\<open>Overview Description\<close>, tried in
  that order, that is present and non-empty after trimming; it is the empty string when
  none of the three is. Stated on the raw values of the record: a field that is absent,
  \<^verbatim>\<open>null\<close> or white space only is passed over.
\<close>

theorem normaliseRecord_description_priority:
  "(\<not> fieldEmpty_spec rec ''Description'' \<longrightarrow>
      fieldYields_spec rec ''Description'' (description (normaliseRecord ttl rec))) \<and>
   (fieldEmpty_spec rec ''Description'' \<and> \<not> fieldEmpty_spec rec ''Detailed Description'' \<longrightarrow>
      fieldYields_spec rec ''Detailed Description'' (description (normaliseRecord ttl rec))) \<and>
   (fieldEmpty_spec rec ''Description'' \<and> fieldEmpty_spec rec ''Detailed Description'' \<and>
    \<not> fieldEmpty_spec rec ''Overview Description'' \<longrightarrow>
      fieldYields_spec rec ''Overview Description'' (description (normaliseRecord ttl rec))) \<and>
   (fieldEmpty_spec rec ''Description'' \<and> fieldEmpty_spec rec ''Detailed Description'' \<and>
    fieldEmpty_spec rec ''Overview Description'' \<longrightarrow>
      description (normaliseRecord ttl rec) = [])"
proof -
  have d: "description (normaliseRecord ttl rec) =
      orElse (get rec ''Description'')
        (orElse (get rec ''Detailed Description'') (get rec ''Overview Description''))"
    by (simp add: normaliseRecord_def Let_def)
  show ?thesis
    unfolding d
    using fieldYields_spec_get [of rec "''Description''"]
      fieldYields_spec_get [of rec "''Detailed Description''"]
      fieldYields_spec_get [of rec "''Overview Description''"]
    by (auto simp add: orElse_def fieldEmpty_spec_get)
qed

text \<open>
  In \<^const>\<open>exampleDescriptions\<close> the first field is white space only and the second is
  \<^verbatim>\<open>null\<close>: the third gives the description, without the white space around it. Then the
  example of the specification, and a record with none of the three fields.
\<close>

theorem normaliseRecord_description_priority_witness:
  "fieldYields_spec exampleDescriptions ''Overview Description''
     (description (normaliseRecord ''U'' exampleDescriptions)) \<and>
   description (normaliseRecord ''U'' exampleDescriptions) = ''D3 x'' \<and>
   fieldYields_spec [(''Description'', JString []), (''Detailed Description'', JString ''D2'')]
     ''Detailed Description''
     (description (normaliseRecord ''U''
        [(''Description'', JString []), (''Detailed Description'', JString ''D2'')])) \<and>
   description (normaliseRecord ''U''
        [(''Description'', JString []), (''Detailed Description'', JString ''D2'')]) = ''D2'' \<and>
   description (normaliseRecord ''U'' [(''Citation'', JString ''c'')]) = []"
proof -
  have e: "fieldEmpty_spec exampleDescriptions ''Description'' \<and>
      fieldEmpty_spec exampleDescriptions ''Detailed Description'' \<and>
      \<not> fieldEmpty_spec exampleDescriptions ''Overview Description''"
    by code_simp
  have a: "fieldYields_spec exampleDescriptions ''Overview Description''
     (description (normaliseRecord ''U'' exampleDescriptions))"
    using normaliseRecord_description_priority [of exampleDescriptions "''U''"] e by blast
  have b: "description (normaliseRecord ''U'' exampleDescriptions) = ''D3 x''"
    by code_simp
  have f: "fieldEmpty_spec [(''Description'', JString []), (''Detailed Description'', JString ''D2'')]
        ''Description'' \<and>
      \<not> fieldEmpty_spec [(''Description'', JString []), (''Detailed Description'', JString ''D2'')]
        ''Detailed Description''"
    by code_simp
  have c: "fieldYields_spec [(''Description'', JString []), (''Detailed Description'', JString ''D2'')]
     ''Detailed Description''
     (description (normaliseRecord ''U''
        [(''Description'', JString []), (''Detailed Description'', JString ''D2'')]))"
    using normaliseRecord_description_priority
      [of "[(''Description'', JString []), (''Detailed Description'', JString ''D2'')]" "''U''"] f
    by blast
  have d: "description (normaliseRecord ''U''
        [(''Description'', JString []), (''Detailed Description'', JString ''D2'')]) = ''D2''"
    by code_simp
  have g: "fieldEmpty_spec [(''Citation'', JString ''c'')] ''Description'' \<and>
      fieldEmpty_spec [(''Citation'', JString ''c'')] ''Detailed Description'' \<and>
      fieldEmpty_spec [(''Citation'', JString ''c'')] ''Overview Description''"
    by code_simp
  have h: "description (normaliseRecord ''U'' [(''Citation'', JString ''c'')]) = []"
    using normaliseRecord_description_priority [of "[(''Citation'', JString ''c'')]" "''U''"] g
    by blast
  from a b c d h show ?thesis
    by (intro conjI)
qed

section \<open>The collection builder\<close>

text \<open>
  Claim C5. The collection has one normalised record for each entry of the parsed object:
  its length is the number of entries, the record at each position is the normalisation
  of the entry at that position (so the titles are the entries' keys, in their order),
  and no entries give the empty collection.
\<close>

theorem records_one_per_entry:
  "length (records parsed) = length parsed \<and>
   (\<forall>i < length parsed. records parsed ! i = normaliseRecord (fst (parsed ! i)) (snd (parsed ! i))) \<and>
   map title (records parsed) = map fst parsed \<and>
   records [] = []"
  by (simp add: records_def normaliseRecord_def Let_def case_prod_unfold)

theorem records_one_per_entry_witness:
  "length (records exampleParsed) = 2 \<and>
   records exampleParsed ! 1 =
     normaliseRecord ''U'' [(''Description'', JString []), (''Detailed Description'', JString ''D2'')] \<and>
   map title (records exampleParsed) = [''T'', ''U'']"
proof -
  have l: "length exampleParsed = 2" and i: "(1::nat) < length exampleParsed"
    and e: "exampleParsed ! 1 =
      (''U'', [(''Description'', JString []), (''Detailed Description'', JString ''D2'')])"
    and f: "map fst exampleParsed = [''T'', ''U'']"
    by (simp_all add: exampleParsed_def)
  from records_one_per_entry [of exampleParsed] i have
    "records exampleParsed ! 1 = normaliseRecord (fst (exampleParsed ! 1)) (snd (exampleParsed ! 1))"
    by blast
  with records_one_per_entry [of exampleParsed] show ?thesis
    by (simp only: l e f fst_conv snd_conv simp_thms)
qed

end
